theory Spec2Isabelle
  imports Complex_Main
begin

section \<open>Data model\<close>

text \<open>
  A genotype label is a Python string.  A trajectory is one row of the genotype
  table: for every timepoint (a column of the table) the frequency of the genotype.
  The sorted genotype table is a pandas DataFrame indexed by label; it is kept as
  the list of its rows in table order.
\<close>

type_synonym label = string
type_synonym trajectory = "(real \<times> real) list"
type_synonym table = "(label \<times> trajectory) list"

datatype error =
    IndexError
  | KeyError
  | InvalidReference
  | UnknownGenotype
  | DimensionMismatch
  | ValueError string

text \<open>The dictionary returned by the scorer for one pair.\<close>

record score_data =
  additive :: real
  derivative :: real
  area :: real
  totalScore :: real

text \<open>A candidate edge: descendant label, candidate background, priority.\<close>

type_synonym edge = "label \<times> label \<times> real"

section \<open>The ancestry graph\<close>

text \<open>
  Modelled from the spec: the class \<open>Ancestry\<close> of \<open>genotype_ancestry.py\<close> (and the
  class \<open>Cluster\<close> of \<open>cluster.py\<close>, used the same way by \<open>order_clusters\<close>) is
  not part of the sources.  Section 4.2 of the specification gives its contract: it is
  initialised with the root row and the table, it appends candidate edges without
  removing duplicates, it rejects an edge from a genotype to itself, it answers with the
  candidate of maximal priority (the earliest one on ties), and it flattens to a parent
  mapping that leaves the root out.  The graph is kept as the sequence of recorded edges
  in recording order; the candidates of one genotype are the subsequence of its edges.
\<close>

record ancestry =
  root_label :: label
  genotype_labels :: "label list"
  edges :: "edge list"

text \<open>
  Modelled from the spec: the constructor of \<open>Ancestry\<close> (not in the sources).  The root
  is the row it is given, the root has no parent, and no edge is recorded yet.
\<close>

definition Ancestry :: "label \<times> trajectory \<Rightarrow> table \<Rightarrow> ancestry" where
  "Ancestry initial_background timepoints =
     \<lparr>root_label = fst initial_background,
      genotype_labels = map fst timepoints,
      edges = []\<rparr>"

text \<open>
  Modelled from the spec: \<open>Ancestry.add_genotype_to_background\<close> (not in the sources)
  appends a candidate edge, keeps duplicates, and fails with an invalid-reference error
  when the genotype is its own candidate background.
\<close>

definition add_genotype_to_background ::
    "ancestry \<Rightarrow> label \<Rightarrow> label \<Rightarrow> real \<Rightarrow> error + ancestry" where
  "add_genotype_to_background a genotype candidate_background priority =
     (if genotype = candidate_background then Inl InvalidReference
      else Inr (a\<lparr>edges := edges a @ [(genotype, candidate_background, priority)]\<rparr>))"

text \<open>
  Modelled from the spec: the candidates recorded for one genotype, in recording order.
\<close>

definition candidates :: "ancestry \<Rightarrow> label \<Rightarrow> (label \<times> real) list" where
  "candidates a genotype = map snd (filter (\<lambda>e. fst e = genotype) (edges a))"

text \<open>
  Modelled from the spec: the selection inside \<open>Ancestry.get_highest_priority\<close> (not in
  the sources).  The maximum by priority, scanning in recording order: the running best is
  replaced only by a strictly larger priority, so the earliest of the maximal candidates
  stays.
\<close>

fun max_by_priority :: "label \<times> real \<Rightarrow> (label \<times> real) list \<Rightarrow> label \<times> real" where
  "max_by_priority best [] = best"
| "max_by_priority best (c # cs) =
     (if snd best < snd c then max_by_priority c cs else max_by_priority best cs)"

text \<open>
  Modelled from the spec: \<open>Ancestry.get_highest_priority\<close> (not in the sources) fails
  with an unknown-genotype error for a genotype without candidates that is not the root;
  the root without candidates has no parent.
\<close>

definition get_highest_priority :: "ancestry \<Rightarrow> label \<Rightarrow> error + label option" where
  "get_highest_priority a genotype =
     (case candidates a genotype of
        [] \<Rightarrow> (if genotype = root_label a then Inr None else Inl UnknownGenotype)
      | c # cs \<Rightarrow> Inr (Some (fst (max_by_priority c cs))))"



section \<open>LineageWorkflow (genotype\_lineage.py)\<close>

text \<open>
  The scorer object \<open>scoring.Score\<close> is not part of the sources; the workflow keeps it
  as a field and only calls \<open>score_pair\<close> on it, so it is a function from the two
  trajectories to a score dictionary or a failure.
\<close>

type_synonym scorer = "trajectory \<Rightarrow> trajectory \<Rightarrow> error + score_data"

record lineage_workflow =
  dlimit :: real
  flimit :: real
  pvalue :: real
  debug :: bool
  genotype_nests :: "ancestry option"
  scorer :: scorer
  score_records :: "score_data list"

text \<open>\<open>Score\<close> is the constructor of the scorer from the three limits.\<close>

definition LineageWorkflow ::
    "(real \<Rightarrow> real \<Rightarrow> real \<Rightarrow> scorer) \<Rightarrow> real \<Rightarrow> real \<Rightarrow> real \<Rightarrow> bool \<Rightarrow> lineage_workflow" where
  "LineageWorkflow Score dl fl pv dbg =
     \<lparr>dlimit = dl, flimit = fl, pvalue = pv, debug = dbg,
      genotype_nests = None,
      scorer = Score dl fl pv,
      score_records = []\<rparr>"

text \<open>
  \<open>known_ancestry if known_ancestry else dict()\<close>: a missing dictionary is the empty
  one.  A dictionary is the list of its items in insertion order.
\<close>

definition known_pairs :: "(label \<times> label) list option \<Rightarrow> (label \<times> label) list" where
  "known_pairs known_ancestry = (case known_ancestry of None \<Rightarrow> [] | Some k \<Rightarrow> k)"

text \<open>
  \<open>add_known_lineages\<close>: the dictionary is walked in insertion order (its keys are
  distinct); a failing call leaves the edges recorded so far in the graph.
\<close>

fun add_known_lineages :: "ancestry \<Rightarrow> (label \<times> label) list \<Rightarrow> error option \<times> ancestry" where
  "add_known_lineages a [] = (None, a)"
| "add_known_lineages a ((identity, parent) # rest) =
     (case add_genotype_to_background a parent ''genotype-0'' 100 of
        Inl e \<Rightarrow> (Some e, a)
      | Inr a1 \<Rightarrow>
          (case add_genotype_to_background a1 identity parent 100 of
             Inl e \<Rightarrow> (Some e, a1)
           | Inr a2 \<Rightarrow> add_known_lineages a2 rest))"

text \<open>
  \<open>sorted_genotypes[:unnested_label]\<close> is a slice by label: pandas takes the rows up
  to and including the row of that label.  When the label occurs several times the
  slice ends after the last occurrence if the occurrences are adjacent, and the lookup
  raises KeyError if they are not.  (A label that does not occur raises KeyError unless
  the index is monotonic; the sweep only slices at labels of the table.)
\<close>

definition slice_to_label :: "table \<Rightarrow> label \<Rightarrow> error + table" where
  "slice_to_label df lbl =
     (let before = takeWhile (\<lambda>r. fst r \<noteq> lbl) df;
          rest = dropWhile (\<lambda>r. fst r \<noteq> lbl) df;
          hits = takeWhile (\<lambda>r. fst r = lbl) rest;
          after = dropWhile (\<lambda>r. fst r = lbl) rest
      in if rest = [] then Inl KeyError
         else if lbl \<in> set (map fst after) then Inl KeyError
         else Inr (before @ hits))"

text \<open>
  The inner loop of the sweep over the rows of \<open>test_table\<close>.  The state is the graph
  together with the diagnostic log; an exception leaves both as they are at that point.
\<close>

fun nest_in_candidates ::
    "scorer \<Rightarrow> label \<Rightarrow> trajectory \<Rightarrow> table \<Rightarrow> ancestry \<times> score_data list
      \<Rightarrow> error option \<times> ancestry \<times> score_data list" where
  "nest_in_candidates sc unnested_label unnested_trajectory [] st = (None, st)"
| "nest_in_candidates sc unnested_label unnested_trajectory ((nested_label, nested_genotype) # rest) (a, recs) =
     (if nested_label = unnested_label
      then nest_in_candidates sc unnested_label unnested_trajectory rest (a, recs)
      else (case sc nested_genotype unnested_trajectory of
              Inl e \<Rightarrow> (Some e, a, recs)
            | Inr score \<Rightarrow>
                (case add_genotype_to_background a unnested_label nested_label (totalScore score) of
                   Inl e \<Rightarrow> (Some e, a, recs @ [score])
                 | Inr a' \<Rightarrow>
                     nest_in_candidates sc unnested_label unnested_trajectory rest
                       (a', recs @ [score]))))"

text \<open>The outer loop over the rows of \<open>sorted_genotypes[1:]\<close>.\<close>

fun sweep ::
    "scorer \<Rightarrow> table \<Rightarrow> table \<Rightarrow> ancestry \<times> score_data list
      \<Rightarrow> error option \<times> ancestry \<times> score_data list" where
  "sweep sc sorted_genotypes [] st = (None, st)"
| "sweep sc sorted_genotypes ((unnested_label, unnested_trajectory) # rows) st =
     (case slice_to_label sorted_genotypes unnested_label of
        Inl e \<Rightarrow> (Some e, st)
      | Inr head_rows \<Rightarrow>
          (case nest_in_candidates sc unnested_label unnested_trajectory (rev head_rows) st of
             (Some e, st') \<Rightarrow> (Some e, st')
           | (None, st') \<Rightarrow> sweep sc sorted_genotypes rows st'))"

text \<open>\<open>show_ancestry\<close> only logs, but it asks the graph for every label of the table.\<close>

fun show_ancestry :: "ancestry \<Rightarrow> label list \<Rightarrow> error option" where
  "show_ancestry a [] = None"
| "show_ancestry a (genotype_label # ls) =
     (case get_highest_priority a genotype_label of
        Inl e \<Rightarrow> Some e
      | Inr candidate \<Rightarrow> show_ancestry a ls)"

text \<open>
  \<open>run\<close> returns the graph or the exception, together with the workflow object as the
  call leaves it.  \<open>iloc[0]\<close> of an empty table raises IndexError.  The debug branch
  only formats the log.
\<close>

definition run ::
    "lineage_workflow \<Rightarrow> table \<Rightarrow> (label \<times> label) list option
      \<Rightarrow> (error + ancestry) \<times> lineage_workflow" where
  "run self sorted_genotypes known_ancestry =
     (case sorted_genotypes of
        [] \<Rightarrow> (Inl IndexError, self)
      | initial_background # _ \<Rightarrow>
          (case add_known_lineages (Ancestry initial_background sorted_genotypes)
                  (known_pairs known_ancestry) of
             (Some e, nests) \<Rightarrow> (Inl e, self\<lparr>genotype_nests := Some nests\<rparr>)
           | (None, nests) \<Rightarrow>
               (case sweep (scorer self) sorted_genotypes (drop 1 sorted_genotypes)
                       (nests, score_records self) of
                  (Some e, nests', recs) \<Rightarrow>
                    (Inl e, self\<lparr>genotype_nests := Some nests', score_records := recs\<rparr>)
                | (None, nests', recs) \<Rightarrow>
                    (case show_ancestry nests' (map fst sorted_genotypes) of
                       Some e \<Rightarrow>
                         (Inl e, self\<lparr>genotype_nests := Some nests', score_records := recs\<rparr>)
                     | None \<Rightarrow>
                         (Inr nests',
                          self\<lparr>genotype_nests := Some nests', score_records := recs\<rparr>)))))"

section \<open>order\_clusters (order.py)\<close>

text \<open>
  The three scoring functions of the module \<open>scoring\<close> are not part of the sources and
  are parameters.  The two loops are those of \<open>run\<close>, with the total score formed as the
  sum of the three calls and no log kept.
\<close>

record scoring_functions =
  calculate_additive_score :: "trajectory \<Rightarrow> trajectory \<Rightarrow> real \<Rightarrow> real"
  calculate_derivative_score :: "trajectory \<Rightarrow> trajectory \<Rightarrow> real \<Rightarrow> real \<Rightarrow> real"
  calculate_area_score :: "trajectory \<Rightarrow> trajectory \<Rightarrow> real"

definition order_score :: "scoring_functions \<Rightarrow> real \<Rightarrow> real \<Rightarrow> real \<Rightarrow> scorer" where
  "order_score scoring dl additive_cutoff derivative_cutoff nested_genotype unnested_trajectory =
     (let score_additive =
            calculate_additive_score scoring nested_genotype unnested_trajectory additive_cutoff;
          score_derivative =
            calculate_derivative_score scoring nested_genotype unnested_trajectory dl derivative_cutoff;
          score_area = calculate_area_score scoring nested_genotype unnested_trajectory
      in Inr \<lparr>additive = score_additive, derivative = score_derivative, area = score_area,
              totalScore = score_additive + score_derivative + score_area\<rparr>)"

definition order_clusters ::
    "scoring_functions \<Rightarrow> table \<Rightarrow> real \<Rightarrow> real \<Rightarrow> real \<Rightarrow> (label \<times> label) list option
      \<Rightarrow> error + ancestry" where
  "order_clusters scoring sorted_df dl additive_cutoff derivative_cutoff known_ancestry =
     (case sorted_df of
        [] \<Rightarrow> Inl IndexError
      | initial_background # _ \<Rightarrow>
          (case add_known_lineages (Ancestry initial_background sorted_df)
                  (known_pairs known_ancestry) of
             (Some e, nests) \<Rightarrow> Inl e
           | (None, nests) \<Rightarrow>
               (case sweep (order_score scoring dl additive_cutoff derivative_cutoff)
                       sorted_df (drop 1 sorted_df) (nests, []) of
                  (Some e, nests', recs) \<Rightarrow> Inl e
                | (None, nests', recs) \<Rightarrow>
                    (case show_ancestry nests' (map fst sorted_df) of
                       Some e \<Rightarrow> Inl e
                     | None \<Rightarrow> Inr nests'))))"

section \<open>The pair scorer\<close>

text \<open>
  Modelled from the spec: the module \<open>scoring\<close> (the class \<open>Score\<close> with \<open>score_pair\<close>)
  is not part of the sources.  Section 4.1 of the specification gives the contract of
  \<open>score_pair\<close>: the two trajectories must be aligned on the same timepoints, otherwise
  it fails with a dimension mismatch; the timepoints at which both frequencies are above
  the detection limit are kept; with fewer than two of them all four scores are zero;
  otherwise the total is the sum of the three components.  The formulas of the components
  are left open by the specification and are parameters.
\<close>

record scorer_config =
  detection_limit :: real
  fixed_limit :: real
  additive_cutoff :: real
  derivative_cutoff :: real





section \<open>The workflow (muller\_workflow.py)\<close>

definition ACCEPTED_METHODS :: "string list" where
  "ACCEPTED_METHODS = [''matlab'', ''hierarchy'']"

text \<open>
  The command line options that the workflow reads; \<open>method_option\<close> is the attribute
  \<open>method\<close>.
\<close>

record program_options =
  detection_breakpoint :: real
  fixed_breakpoint :: "real option"
  significant_breakpoint :: real
  similarity_breakpoint :: real
  difference_breakpoint :: real
  frequencies :: "real list"
  mode :: bool
  method_option :: string
  is_genotype :: bool
  sheetname :: string
  use_filter :: bool
  use_strict_filter :: bool
  annotate_all :: bool
  save_pvalue :: bool

text \<open>
  \<open>GenotypeOptions\<close> and \<open>SortOptions\<close> are built from keyword arguments; their fields
  are those keywords.  The presets \<open>from_matlab\<close> and the constructor
  \<open>OrderClusterParameters.from_breakpoints\<close> are not part of the sources and are
  parameters.
\<close>

record genotype_options =
  genotype_detection_breakpoint :: real
  genotype_fixed_breakpoint :: "real option"
  genotype_similarity_breakpoint :: real
  genotype_difference_breakpoint :: real
  genotype_n_binom :: "nat option"
  genotype_method :: string

record sort_options =
  sort_detection_breakpoint :: real
  sort_fixed_breakpoint :: "real option"
  sort_significant_breakpoint :: real
  sort_frequency_breakpoints :: "real list"

record 'c option_library =
  GenotypeOptions_from_matlab :: genotype_options
  SortOptions_from_matlab :: sort_options
  OrderClusterParameters_from_matlab :: 'c
  OrderClusterParameters_from_breakpoints :: "real \<Rightarrow> real \<Rightarrow> 'c"

text \<open>
  \<open>parse_workflow_options\<close> first fills in the fixed breakpoint of the options object
  it was given, so the object is returned next to the result also when the method is
  rejected.
\<close>

definition parse_workflow_options ::
    "'c option_library \<Rightarrow> program_options
      \<Rightarrow> (error + genotype_options \<times> sort_options \<times> 'c) \<times> program_options" where
  "parse_workflow_options lib options =
     (let program_options =
            (if fixed_breakpoint options = None
             then options\<lparr>fixed_breakpoint := Some (1 - detection_breakpoint options)\<rparr>
             else options);
          compatibility_mode = mode program_options;
          program_options_genotype =
            (if compatibility_mode then GenotypeOptions_from_matlab lib
             else \<lparr>genotype_detection_breakpoint = detection_breakpoint program_options,
                   genotype_fixed_breakpoint = fixed_breakpoint program_options,
                   genotype_similarity_breakpoint = similarity_breakpoint program_options,
                   genotype_difference_breakpoint = difference_breakpoint program_options,
                   genotype_n_binom = None,
                   genotype_method = method_option program_options\<rparr>);
          program_options_clustering =
            (if compatibility_mode then OrderClusterParameters_from_matlab lib
             else OrderClusterParameters_from_breakpoints lib
                    (detection_breakpoint program_options)
                    (significant_breakpoint program_options));
          program_options_sort =
            (if compatibility_mode then SortOptions_from_matlab lib
             else \<lparr>sort_detection_breakpoint = genotype_detection_breakpoint program_options_genotype,
                   sort_fixed_breakpoint = genotype_fixed_breakpoint program_options_genotype,
                   sort_significant_breakpoint = significant_breakpoint program_options,
                   sort_frequency_breakpoints = frequencies program_options\<rparr>);
          cluster_method = method_option program_options
      in if cluster_method \<notin> set ACCEPTED_METHODS
         then (Inl (ValueError (cluster_method
                 @ '' is not a valid option for the --method option. Expected one of ['matlab', 'hierarchy']'')),
               program_options)
         else (Inr (program_options_genotype, program_options_sort, program_options_clustering),
               program_options))"

text \<open>
  The stages after option parsing (import, sorting, nesting, output) are functions of
  other modules; each is a parameter that works on the outside world \<open>'w\<close> and may
  fail.  The nesting stage is the one that sweeps the table and scores the pairs.  What
  \<open>workflow\<close> prints is collected line by line.
\<close>

record ('c, 'd, 'r, 'w) pipeline =
  show_options :: "program_options \<Rightarrow> string"
  extract_genotypes_from_path :: "string \<Rightarrow> string \<Rightarrow> 'w \<Rightarrow> (error + 'd) \<times> 'w"
  extract_genotypes_from_trajectories ::
    "string \<Rightarrow> program_options \<Rightarrow> genotype_options \<Rightarrow> real list \<Rightarrow> 'w \<Rightarrow> (error + 'd) \<times> 'w"
  sort_genotypes :: "'d \<Rightarrow> sort_options \<Rightarrow> 'w \<Rightarrow> (error + table) \<times> 'w"
  nest_genotypes :: "table \<Rightarrow> 'd \<Rightarrow> 'c \<Rightarrow> 'w \<Rightarrow> (error + 'r) \<times> 'w"
  generate_output ::
    "string \<Rightarrow> string \<Rightarrow> program_options \<Rightarrow> 'd \<Rightarrow> 'r
      \<Rightarrow> genotype_options \<Rightarrow> sort_options \<Rightarrow> 'c \<Rightarrow> 'w \<Rightarrow> (error + unit) \<times> 'w"

definition workflow ::
    "('c, 'd, 'r, 'w) pipeline \<Rightarrow> 'c option_library \<Rightarrow> string \<Rightarrow> string \<Rightarrow> program_options
      \<Rightarrow> 'w \<times> string list \<Rightarrow> (error + 'r) \<times> program_options \<times> 'w \<times> string list" where
  "workflow stages lib input_filename output_folder options world =
     (case world of (w, out) \<Rightarrow>
      (case parse_workflow_options lib options of
         (Inl e, program_options) \<Rightarrow>
           (Inl e, program_options, w, out @ [''parsing options...''])
       | (Inr (program_options_genotype, program_options_sort, program_options_clustering),
          program_options) \<Rightarrow>
           (case (if is_genotype program_options
                  then extract_genotypes_from_path stages input_filename
                         (sheetname program_options) w
                  else extract_genotypes_from_trajectories stages input_filename program_options
                         program_options_genotype
                         (sort_frequency_breakpoints program_options_sort) w) of
              (Inl e, w1) \<Rightarrow>
                (Inl e, program_options, w1,
                 out @ [''parsing options...'', show_options stages program_options,
                        ''Importing data...''])
            | (Inr genotypes, w1) \<Rightarrow>
                (case sort_genotypes stages genotypes program_options_sort w1 of
                   (Inl e, w2) \<Rightarrow>
                     (Inl e, program_options, w2,
                      out @ [''parsing options...'', show_options stages program_options,
                             ''Importing data...'', ''sorting muller_genotypes...''])
                 | (Inr sorted_genotypes, w2) \<Rightarrow>
                     (case nest_genotypes stages sorted_genotypes genotypes
                             program_options_clustering w2 of
                        (Inl e, w3) \<Rightarrow>
                          (Inl e, program_options, w3,
                           out @ [''parsing options...'', show_options stages program_options,
                                  ''Importing data...'', ''sorting muller_genotypes...'',
                                  ''nesting muller_genotypes...''])
                      | (Inr genotype_clusters, w3) \<Rightarrow>
                          (case generate_output stages input_filename output_folder
                                  program_options genotypes genotype_clusters
                                  program_options_genotype program_options_sort
                                  program_options_clustering w3 of
                             (Inl e, w4) \<Rightarrow>
                               (Inl e, program_options, w4,
                                out @ [''parsing options...'', show_options stages program_options,
                                       ''Importing data...'', ''sorting muller_genotypes...'',
                                       ''nesting muller_genotypes...'', ''Generating output...''])
                           | (Inr u, w4) \<Rightarrow>
                               (Inr genotype_clusters, program_options, w4,
                                out @ [''parsing options...'', show_options stages program_options,
                                       ''Importing data...'', ''sorting muller_genotypes...'',
                                       ''nesting muller_genotypes...'',
                                       ''Generating output...''])))))))"


section \<open>Vocabulary of the statements\<close>

text \<open>
  The order of the automatic sweep in the words of the specification: every position
  \<open>i\<close> from 1 upwards, and for each the positions \<open>i - 1\<close> down to \<open>0\<close>.
\<close>

definition sweep_order :: "nat \<Rightarrow> (nat \<times> nat) list" where
  "sweep_order n = concat (map (\<lambda>i. map (\<lambda>j. (i, j)) (rev [0..<i])) [1..<n])"

definition sweep_edges :: "(trajectory \<Rightarrow> trajectory \<Rightarrow> score_data) \<Rightarrow> table \<Rightarrow> edge list" where
  "sweep_edges f df =
     map (\<lambda>(i, j). (fst (df ! i), fst (df ! j), totalScore (f (snd (df ! j)) (snd (df ! i)))))
       (sweep_order (length df))"

definition sweep_records :: "(trajectory \<Rightarrow> trajectory \<Rightarrow> score_data) \<Rightarrow> table \<Rightarrow> score_data list" where
  "sweep_records f df =
     map (\<lambda>(i, j). f (snd (df ! j)) (snd (df ! i))) (sweep_order (length df))"

text \<open>The two edges of every declared pair, in the order of the declaration.\<close>

definition override_edges :: "(label \<times> label) list \<Rightarrow> edge list" where
  "override_edges known =
     concat (map (\<lambda>(identity, parent). [(parent, ''genotype-0'', 100), (identity, parent, 100)]) known)"

text \<open>The graph of a run that went through.\<close>

definition completed_graph ::
    "(trajectory \<Rightarrow> trajectory \<Rightarrow> score_data) \<Rightarrow> table \<Rightarrow> (label \<times> label) list \<Rightarrow> ancestry" where
  "completed_graph f df known =
     \<lparr>root_label = fst (hd df), genotype_labels = map fst df,
      edges = override_edges known @ sweep_edges f df\<rparr>"

text \<open>The pairs (row, candidate row) in the order the two loops reach them.\<close>

fun visits :: "table \<Rightarrow> table \<Rightarrow> ((label \<times> trajectory) \<times> (label \<times> trajectory)) list" where
  "visits pre [] = []"
| "visits pre (r # rows) = map (\<lambda>n. (r, n)) (rev pre) @ visits (pre @ [r]) rows"





section \<open>A small table for the concrete instances\<close>

definition example_table :: table where
  "example_table =
     [(''genotype-0'', [(0, 1), (1, 1), (2, 1)]),
      (''genotype-1'', [(0, 0), (1, 0.4), (2, 0.8)]),
      (''genotype-2'', [(0, 0), (1, 0.1), (2, 0.3)])]"

definition example_score :: "trajectory \<Rightarrow> trajectory \<Rightarrow> score_data" where
  "example_score x y =
     \<lparr>additive = 1, derivative = 0, area = snd (last x) - snd (last y),
      totalScore = 1 + 0 + (snd (last x) - snd (last y))\<rparr>"

definition example_workflow :: lineage_workflow where
  "example_workflow =
     LineageWorkflow (\<lambda>dl fl pv x y. Inr (example_score x y)) 0.03 0.97 0.05 False"

text \<open>
  Stages that only count how often any of them ran, and components that never score zero.
\<close>

definition example_stages :: "(unit, unit, unit, nat) pipeline" where
  "example_stages =
     \<lparr>show_options = (\<lambda>options. ''ProgramOptions''),
      extract_genotypes_from_path = (\<lambda>filename sheet w. (Inr (), Suc w)),
      extract_genotypes_from_trajectories = (\<lambda>filename options g fs w. (Inr (), Suc w)),
      sort_genotypes = (\<lambda>genotypes options w. (Inr example_table, Suc w)),
      nest_genotypes = (\<lambda>sorted genotypes options w. (Inr (), Suc w)),
      generate_output = (\<lambda>filename folder options genotypes clusters g s c w. (Inr (), Suc w))\<rparr>"

definition example_library :: "unit option_library" where
  "example_library =
     \<lparr>GenotypeOptions_from_matlab =
        \<lparr>genotype_detection_breakpoint = 0.03, genotype_fixed_breakpoint = Some 0.97,
         genotype_similarity_breakpoint = 0.05, genotype_difference_breakpoint = 0.1,
         genotype_n_binom = Some 5, genotype_method = ''matlab''\<rparr>,
      SortOptions_from_matlab =
        \<lparr>sort_detection_breakpoint = 0.03, sort_fixed_breakpoint = Some 0.85,
         sort_significant_breakpoint = 0.15, sort_frequency_breakpoints = [0.9, 0.75, 0.6]\<rparr>,
      OrderClusterParameters_from_matlab = (),
      OrderClusterParameters_from_breakpoints = (\<lambda>detection significant. ())\<rparr>"


section \<open>The sweep\<close>

lemma slice_to_label_distinct:
  assumes "distinct (map fst (pre @ (l, t) # post))"
  shows "slice_to_label (pre @ (l, t) # post) l = Inr (pre @ [(l, t)])"
proof -
  have a: "\<forall>r \<in> set pre. fst r \<noteq> l" using assms by auto
  have b: "\<forall>r \<in> set post. fst r \<noteq> l" using assms by auto
  have tw: "takeWhile (\<lambda>r. fst r \<noteq> l) (pre @ (l, t) # post) = pre"
    using a by (simp add: takeWhile_append2)
  have dw: "dropWhile (\<lambda>r. fst r \<noteq> l) (pre @ (l, t) # post) = (l, t) # post"
    using a by (simp add: dropWhile_append2)
  have tw2: "takeWhile (\<lambda>r. fst r = l) post = []"
    using b by (cases post) auto
  have dw2: "dropWhile (\<lambda>r. fst r = l) post = post"
    using b by (cases post) auto
  show ?thesis
    unfolding slice_to_label_def Let_def tw dw using b tw2 dw2 by auto
qed

lemma nest_in_candidates_total:
  assumes "\<forall>r \<in> set rows. fst r \<noteq> ul"
  shows "nest_in_candidates (\<lambda>x y. Inr (f x y)) ul ut rows (a, recs) =
    (None, a\<lparr>edges := edges a @ map (\<lambda>n. (ul, fst n, totalScore (f (snd n) ut))) rows\<rparr>,
     recs @ map (\<lambda>n. f (snd n) ut) rows)"
  using assms
  by (induction rows arbitrary: a recs) (auto simp: add_genotype_to_background_def)

lemma sweep_total:
  assumes "distinct (map fst (pre @ rows))"
  shows "sweep (\<lambda>x y. Inr (f x y)) (pre @ rows) rows (a, recs) =
    (None,
     a\<lparr>edges := edges a @ map (\<lambda>(u, n). (fst u, fst n, totalScore (f (snd n) (snd u)))) (visits pre rows)\<rparr>,
     recs @ map (\<lambda>(u, n). f (snd n) (snd u)) (visits pre rows))"
  using assms
proof (induction rows arbitrary: pre a recs)
  case Nil
  then show ?case by simp
next
  case (Cons r rows)
  obtain l t where r: "r = (l, t)" by (cases r)
  have sl: "slice_to_label (pre @ r # rows) l = Inr (pre @ [(l, t)])"
    using Cons.prems unfolding r by (rule slice_to_label_distinct)
  have ne: "\<forall>n \<in> set (rev pre). fst n \<noteq> l" using Cons.prems r by auto
  have d: "distinct (map fst ((pre @ [r]) @ rows))" using Cons.prems by simp
  have eq: "pre @ r # rows = (pre @ [r]) @ rows" by simp
  show ?case
    using Cons.IH[OF d] sl nest_in_candidates_total[OF ne, of f t]
    unfolding eq by (simp add: r)
qed


lemma visits_index:
  "visits pre rows =
     map (\<lambda>(i, j). ((pre @ rows) ! i, (pre @ rows) ! j))
       (concat (map (\<lambda>i. map (\<lambda>j. (i, j)) (rev [0..<i])) [length pre..<length pre + length rows]))"
proof (induction rows arbitrary: pre)
  case Nil
  then show ?case by simp
next
  case (Cons r rows)
  have up: "[length pre..<length pre + length (r # rows)] =
      length pre # [length (pre @ [r])..<length (pre @ [r]) + length rows]"
    using upt_conv_Cons[of "length pre" "length pre + length (r # rows)"] by simp
  have hd: "map (\<lambda>n. (r, n)) (rev pre) =
      map (\<lambda>(i, j). ((pre @ r # rows) ! i, (pre @ r # rows) ! j))
        (map (\<lambda>j. (length pre, j)) (rev [0..<length pre]))"
  proof -
    have "map (\<lambda>j. (pre @ r # rows) ! j) [0..<length pre] = pre"
      by (rule nth_equalityI) (auto simp: nth_append)
    then have "rev pre = rev (map (\<lambda>j. (pre @ r # rows) ! j) [0..<length pre])"
      by simp
    then have "rev pre = map (\<lambda>j. (pre @ r # rows) ! j) (rev [0..<length pre])"
      by (simp only: rev_map)
    then show ?thesis by (simp add: comp_def)
  qed
  show ?case
    unfolding up visits.simps Cons.IH hd by simp
qed

lemma visits_member: "u \<in> set rows \<Longrightarrow> n \<in> set pre \<Longrightarrow> (u, n) \<in> set (visits pre rows)"
  by (induction rows arbitrary: pre) auto

lemma visits_hd: "visits [r0] rows =
   map (\<lambda>(i, j). ((r0 # rows) ! i, (r0 # rows) ! j)) (sweep_order (length (r0 # rows)))"
  using visits_index[of "[r0]" rows] by (simp add: sweep_order_def)

lemma add_known_lineages_ok:
  assumes "\<forall>(identity, parent) \<in> set known. parent \<noteq> ''genotype-0'' \<and> identity \<noteq> parent"
  shows "add_known_lineages a known = (None, a\<lparr>edges := edges a @ override_edges known\<rparr>)"
  using assms
  by (induction known arbitrary: a)
     (auto simp: override_edges_def add_genotype_to_background_def)


lemma show_ancestry_ok:
  assumes "\<forall>g \<in> set ls. g = root_label a \<or> candidates a g \<noteq> []"
  shows "show_ancestry a ls = None"
  using assms
  by (induction ls) (auto simp: get_highest_priority_def split: list.splits)


lemma sweep_from_root:
  assumes "distinct (map fst (r0 # rows))"
  shows "sweep (\<lambda>x y. Inr (f x y)) (r0 # rows) rows (a, recs) =
    (None, a\<lparr>edges := edges a @ sweep_edges f (r0 # rows)\<rparr>, recs @ sweep_records f (r0 # rows))"
proof -
  have "distinct (map fst ([r0] @ rows))" using assms by simp
  from sweep_total[OF this, of f a recs] show ?thesis
    unfolding visits_hd sweep_edges_def sweep_records_def
    by (simp add: case_prod_unfold comp_def)
qed

lemma candidates_sweep_nonempty:
  assumes "r \<in> set rows"
  shows "filter (\<lambda>e. fst e = fst r) (sweep_edges f (r0 # rows)) \<noteq> []"
proof -
  have "(r, r0) \<in> set (visits [r0] rows)" using assms by (simp add: visits_member)
  then have "(r, r0) \<in> set (map (\<lambda>(i, j). ((r0 # rows) ! i, (r0 # rows) ! j)) (sweep_order (length (r0 # rows))))"
    by (simp only: visits_hd)
  then obtain i j where ij: "(i, j) \<in> set (sweep_order (length (r0 # rows)))"
     "(r0 # rows) ! i = r" by auto
  then have "(fst r, fst ((r0 # rows) ! j), totalScore (f (snd ((r0 # rows) ! j)) (snd r)))
      \<in> set (sweep_edges f (r0 # rows))"
    unfolding sweep_edges_def by force
  then show ?thesis by (force simp: filter_empty_conv)
qed

lemma run_completed:
  assumes d: "distinct (map fst df)" and ne: "df \<noteq> []"
    and k: "\<forall>(identity, parent) \<in> set (known_pairs ko). parent \<noteq> ''genotype-0'' \<and> identity \<noteq> parent"
    and sc: "scorer self = (\<lambda>x y. Inr (f x y))"
  shows "run self df ko =
     (Inr (completed_graph f df (known_pairs ko)),
      self\<lparr>genotype_nests := Some (completed_graph f df (known_pairs ko)),
           score_records := score_records self @ sweep_records f df\<rparr>)"
proof -
  obtain r0 rows where df: "df = r0 # rows" using ne by (cases df) auto
  let ?a0 = "Ancestry r0 df"
  let ?a1 = "?a0\<lparr>edges := edges ?a0 @ override_edges (known_pairs ko)\<rparr>"
  let ?A = "completed_graph f df (known_pairs ko)"
  have inj: "add_known_lineages ?a0 (known_pairs ko) = (None, ?a1)"
    using k by (rule add_known_lineages_ok)
  have sw: "sweep (scorer self) df (drop 1 df) (?a1, score_records self) =
      (None, ?a1\<lparr>edges := edges ?a1 @ sweep_edges f df\<rparr>, score_records self @ sweep_records f df)"
    using sweep_from_root[of r0 rows f ?a1 "score_records self"] d by (simp add: df sc)
  have A: "?a0\<lparr>edges := edges ?a0 @ override_edges (known_pairs ko) @ sweep_edges f df\<rparr> = ?A"
    by (simp add: completed_graph_def Ancestry_def df)
  have "\<forall>g \<in> set (map fst df). g = root_label ?A \<or> candidates ?A g \<noteq> []"
  proof
    fix g assume "g \<in> set (map fst df)"
    then consider "g = fst r0" | r where "r \<in> set rows" "g = fst r" by (auto simp: df)
    then show "g = root_label ?A \<or> candidates ?A g \<noteq> []"
    proof cases
      case 1 then show ?thesis by (simp add: completed_graph_def df)
    next
      case 2
      then show ?thesis using candidates_sweep_nonempty[of r rows f r0]
        by (simp add: candidates_def completed_graph_def df)
    qed
  qed
  then have sh: "show_ancestry ?A (map fst df) = None" by (rule show_ancestry_ok)
  show ?thesis
    unfolding run_def using inj sw sh A
    by (simp add: df)
qed

lemma sweep_order_mem: "(i, j) \<in> set (sweep_order n) \<longleftrightarrow> 1 \<le> i \<and> i < n \<and> j < i"
proof
  assume "(i, j) \<in> set (sweep_order n)"
  then show "1 \<le> i \<and> i < n \<and> j < i" by (auto simp: sweep_order_def)
next
  assume a: "1 \<le> i \<and> i < n \<and> j < i"
  then have "i \<in> set [1..<n]" "(i, j) \<in> set (map (\<lambda>j. (i, j)) (rev [0..<i]))" by auto
  then show "(i, j) \<in> set (sweep_order n)" unfolding sweep_order_def set_concat by force
qed

lemma concat_single:
  "distinct xs \<Longrightarrow> concat (map (\<lambda>y. if y = x then L y else []) xs) = (if x \<in> set xs then L x else [])"
  by (induction xs) auto

lemma sweep_edges_of:
  assumes d: "distinct (map fst df)" and i: "i < length df"
  shows "filter (\<lambda>e. fst e = fst (df ! i)) (sweep_edges f df) =
     map (\<lambda>j. (fst (df ! i), fst (df ! j), totalScore (f (snd (df ! j)) (snd (df ! i))))) (rev [0..<i])"
proof -
  let ?E = "\<lambda>i' j. (fst (df ! i'), fst (df ! j), totalScore (f (snd (df ! j)) (snd (df ! i'))))"
  have se: "sweep_edges f df = concat (map (\<lambda>i'. map (?E i') (rev [0..<i'])) [1..<length df])"
    by (simp add: sweep_edges_def sweep_order_def map_concat comp_def)
  have each: "\<And>i'. i' \<in> set [1..<length df] \<Longrightarrow>
      filter (\<lambda>e. fst e = fst (df ! i)) (map (?E i') (rev [0..<i'])) =
      (if i' = i then map (?E i) (rev [0..<i]) else [])"
  proof -
    fix i' assume "i' \<in> set [1..<length df]"
    then have "i' < length df" by simp
    then have "fst (df ! i') = fst (df ! i) \<longleftrightarrow> i' = i"
      using d i nth_eq_iff_index_eq[of "map fst df" i' i] by simp
    then show "filter (\<lambda>e. fst e = fst (df ! i)) (map (?E i') (rev [0..<i'])) =
      (if i' = i then map (?E i) (rev [0..<i]) else [])"
      by (auto simp: filter_map comp_def)
  qed
  have "filter (\<lambda>e. fst e = fst (df ! i)) (sweep_edges f df) =
      concat (map (\<lambda>i'. filter (\<lambda>e. fst e = fst (df ! i)) (map (?E i') (rev [0..<i']))) [1..<length df])"
    unfolding se by (simp add: filter_concat comp_def)
  also have "\<dots> = concat (map (\<lambda>i'. if i' = i then map (?E i') (rev [0..<i']) else []) [1..<length df])"
    using each by (intro arg_cong[where f = concat] map_cong) auto
  also have "\<dots> = (if i \<in> set [1..<length df] then map (?E i) (rev [0..<i]) else [])"
    by (rule concat_single) simp
  also have "\<dots> = map (?E i) (rev [0..<i])"
    using i by (cases i) auto
  finally show ?thesis .
qed

lemma sweep_edges_no_self:
  assumes d: "distinct (map fst df)" and e: "e \<in> set (sweep_edges f df)"
  shows "fst e \<noteq> fst (snd e)"
proof -
  from e obtain i j where ij: "(i, j) \<in> set (sweep_order (length df))"
    and e': "e = (fst (df ! i), fst (df ! j), totalScore (f (snd (df ! j)) (snd (df ! i))))"
    unfolding sweep_edges_def by auto
  from ij have "i < length df" "j < i" by (auto simp: sweep_order_mem)
  then have "fst (df ! i) \<noteq> fst (df ! j)"
    using d nth_eq_iff_index_eq[of "map fst df" i j] by simp
  then show ?thesis by (simp add: e')
qed

lemma order_score_total:
  "order_score scoring dl ac dc =
     (\<lambda>x y. Inr \<lparr>additive = calculate_additive_score scoring x y ac,
                  derivative = calculate_derivative_score scoring x y dl dc,
                  area = calculate_area_score scoring x y,
                  totalScore = calculate_additive_score scoring x y ac
                    + calculate_derivative_score scoring x y dl dc
                    + calculate_area_score scoring x y\<rparr>)"
  by (rule ext, rule ext) (simp add: order_score_def Let_def)

lemma candidates_completed_nonempty:
  assumes "g \<in> set (map fst df)" "g \<noteq> fst (hd df)"
  shows "candidates (completed_graph f df known) g \<noteq> []"
proof -
  from assms obtain r0 rows where df: "df = r0 # rows" by (cases df) auto
  with assms obtain r where "r \<in> set rows" "g = fst r" by auto
  then show ?thesis using candidates_sweep_nonempty[of r rows f r0]
    by (simp add: candidates_def completed_graph_def df)
qed

lemma order_clusters_completed:
  assumes d: "distinct (map fst df)" and ne: "df \<noteq> []"
    and k: "\<forall>(identity, parent) \<in> set (known_pairs ko). parent \<noteq> ''genotype-0'' \<and> identity \<noteq> parent"
    and f: "order_score scoring dl ac dc = (\<lambda>x y. Inr (f x y))"
  shows "order_clusters scoring df dl ac dc ko = Inr (completed_graph f df (known_pairs ko))"
proof -
  obtain r0 rows where df: "df = r0 # rows" using ne by (cases df) auto
  let ?a0 = "Ancestry r0 df"
  let ?a1 = "?a0\<lparr>edges := edges ?a0 @ override_edges (known_pairs ko)\<rparr>"
  let ?A = "completed_graph f df (known_pairs ko)"
  have inj: "add_known_lineages ?a0 (known_pairs ko) = (None, ?a1)"
    using k by (rule add_known_lineages_ok)
  have sw: "sweep (order_score scoring dl ac dc) df (drop 1 df) (?a1, []) =
      (None, ?a1\<lparr>edges := edges ?a1 @ sweep_edges f df\<rparr>, [] @ sweep_records f df)"
    using sweep_from_root[of r0 rows f ?a1 "[]"] d unfolding f by (simp add: df)
  have A: "?a0\<lparr>edges := edges ?a0 @ override_edges (known_pairs ko) @ sweep_edges f df\<rparr> = ?A"
    by (simp add: completed_graph_def Ancestry_def df)
  have "\<forall>g \<in> set (map fst df). g = root_label ?A \<or> candidates ?A g \<noteq> []"
    using candidates_completed_nonempty[of _ df f "known_pairs ko"]
    by (auto simp: completed_graph_def)
  then have sh: "show_ancestry ?A (map fst df) = None" by (rule show_ancestry_ok)
  show ?thesis
    unfolding order_clusters_def using inj sw sh A
    by (simp add: df)
qed


lemma sweep_order_3: "sweep_order (Suc (Suc (Suc 0))) = [(1, 0), (2, 1), (2, 0)]"
  by (simp add: sweep_order_def upt_rec numeral_2_eq_2)

section \<open>The diagnostic log\<close>

lemma nest_in_candidates_log:
  "nest_in_candidates sc ul ut rows (a, recs) =
     (case nest_in_candidates sc ul ut rows (a, []) of (e, a', new) \<Rightarrow> (e, a', recs @ new))"
proof (induction rows arbitrary: a recs)
  case Nil
  then show ?case by simp
next
  case (Cons r rows)
  obtain nl nt where r: "r = (nl, nt)" by (cases r)
  show ?case
  proof (cases "nl = ul")
    case True
    then show ?thesis using Cons.IH[of a recs] by (simp add: r)
  next
    case False
    show ?thesis
    proof (cases "sc nt ut")
      case (Inl e)
      then show ?thesis using False by (simp add: r)
    next
      case (Inr score)
      show ?thesis
      proof (cases "add_genotype_to_background a ul nl (totalScore score)")
        case (Inl e)
        then show ?thesis using False Inr by (simp add: r)
      next
        case (Inr a')
        have 1: "nest_in_candidates sc ul ut rows (a', recs @ [score]) =
          (case nest_in_candidates sc ul ut rows (a', []) of (e, a'', new) \<Rightarrow> (e, a'', (recs @ [score]) @ new))"
          by (rule Cons.IH)
        have 2: "nest_in_candidates sc ul ut rows (a', [score]) =
          (case nest_in_candidates sc ul ut rows (a', []) of (e, a'', new) \<Rightarrow> (e, a'', [score] @ new))"
          by (rule Cons.IH)
        show ?thesis using False \<open>sc nt ut = Inr score\<close> Inr 1 2
          by (simp add: r split: prod.splits)
      qed
    qed
  qed
qed

lemma sweep_log:
  "sweep sc df rows (a, recs) =
     (case sweep sc df rows (a, []) of (e, a', new) \<Rightarrow> (e, a', recs @ new))"
proof (induction rows arbitrary: a recs)
  case Nil
  then show ?case by simp
next
  case (Cons r rows)
  obtain ul ut where r: "r = (ul, ut)" by (cases r)
  show ?case
  proof (cases "slice_to_label df ul")
    case (Inl e)
    then show ?thesis by (simp add: r)
  next
    case (Inr head_rows)
    obtain e a1 new1 where n0: "nest_in_candidates sc ul ut (rev head_rows) (a, []) = (e, a1, new1)"
      by (cases "nest_in_candidates sc ul ut (rev head_rows) (a, [])") auto
    then have n1: "nest_in_candidates sc ul ut (rev head_rows) (a, recs) = (e, a1, recs @ new1)"
      using nest_in_candidates_log[of sc ul ut "rev head_rows" a recs] by simp
    show ?thesis
    proof (cases e)
      case None
      have 1: "sweep sc df rows (a1, recs @ new1) =
          (case sweep sc df rows (a1, []) of (e, a', new) \<Rightarrow> (e, a', (recs @ new1) @ new))"
        by (rule Cons.IH)
      have 2: "sweep sc df rows (a1, new1) =
          (case sweep sc df rows (a1, []) of (e, a', new) \<Rightarrow> (e, a', new1 @ new))"
        using Cons.IH[of a1 new1] by simp
      show ?thesis using Inr n0 n1 None 1 2 by (simp add: r split: prod.splits)
    next
      case (Some err)
      then show ?thesis using Inr n0 n1 by (simp add: r)
    qed
  qed
qed

lemma run_frame:
  assumes "scorer self' = scorer self"
  shows "fst (run self' df ko) = fst (run self df ko)
     \<and> score_records (snd (run self' df ko)) =
         score_records self' @ score_records (snd (run (self\<lparr>score_records := []\<rparr>) df ko))
     \<and> (df \<noteq> [] \<longrightarrow> genotype_nests (snd (run self' df ko)) = genotype_nests (snd (run self df ko)))
     \<and> scorer (snd (run self' df ko)) = scorer self"
proof (cases df)
  case Nil
  then show ?thesis using assms by (simp add: run_def)
next
  case (Cons r0 rows)
  obtain e1 n1 where inj: "add_known_lineages (Ancestry r0 df) (known_pairs ko) = (e1, n1)"
    by (cases "add_known_lineages (Ancestry r0 df) (known_pairs ko)") auto
  show ?thesis
  proof (cases e1)
    case (Some err)
    then show ?thesis using inj assms Cons by (simp add: run_def)
  next
    case None
    obtain e2 n2 new where sw0: "sweep (scorer self) df rows (n1, []) = (e2, n2, new)"
      by (cases "sweep (scorer self) df rows (n1, [])") auto
    have sw: "\<And>recs. sweep (scorer self) df rows (n1, recs) = (e2, n2, recs @ new)"
      using sweep_log[of "scorer self" df rows n1] sw0 by simp
    show ?thesis
      using inj None assms Cons sw sw0
      by (cases e2; cases "show_ancestry n2 (map fst df)") (simp_all add: run_def)
  qed
qed

lemma example_run:
  "run example_workflow example_table None =
     (Inr \<lparr>root_label = ''genotype-0'',
           genotype_labels = [''genotype-0'', ''genotype-1'', ''genotype-2''],
           edges = [(''genotype-1'', ''genotype-0'', 1.2),
                    (''genotype-2'', ''genotype-1'', 1.5),
                    (''genotype-2'', ''genotype-0'', 1.7)]\<rparr>,
      example_workflow
        \<lparr>genotype_nests := Some \<lparr>root_label = ''genotype-0'',
           genotype_labels = [''genotype-0'', ''genotype-1'', ''genotype-2''],
           edges = [(''genotype-1'', ''genotype-0'', 1.2),
                    (''genotype-2'', ''genotype-1'', 1.5),
                    (''genotype-2'', ''genotype-0'', 1.7)]\<rparr>,
         score_records :=
           [\<lparr>additive = 1, derivative = 0, area = 0.2, totalScore = 1.2\<rparr>,
            \<lparr>additive = 1, derivative = 0, area = 0.5, totalScore = 1.5\<rparr>,
            \<lparr>additive = 1, derivative = 0, area = 0.7, totalScore = 1.7\<rparr>]\<rparr>)"
proof -
  have d: "distinct (map fst example_table)" and ne: "example_table \<noteq> []"
    by (simp_all add: example_table_def)
  have k: "\<forall>(identity, parent) \<in> set (known_pairs None). parent \<noteq> ''genotype-0'' \<and> identity \<noteq> parent"
    by (simp add: known_pairs_def)
  have sc: "scorer example_workflow = (\<lambda>x y. Inr (example_score x y))"
    by (simp add: example_workflow_def LineageWorkflow_def)
  have g: "completed_graph example_score example_table (known_pairs None) =
      \<lparr>root_label = ''genotype-0'',
           genotype_labels = [''genotype-0'', ''genotype-1'', ''genotype-2''],
           edges = [(''genotype-1'', ''genotype-0'', 1.2),
                    (''genotype-2'', ''genotype-1'', 1.5),
                    (''genotype-2'', ''genotype-0'', 1.7)]\<rparr>"
    by (simp add: completed_graph_def known_pairs_def override_edges_def sweep_edges_def
          example_table_def sweep_order_3 example_score_def)
  have r: "score_records example_workflow @ sweep_records example_score example_table =
     [\<lparr>additive = 1, derivative = 0, area = 0.2, totalScore = 1.2\<rparr>,
            \<lparr>additive = 1, derivative = 0, area = 0.5, totalScore = 1.5\<rparr>,
            \<lparr>additive = 1, derivative = 0, area = 0.7, totalScore = 1.7\<rparr>]"
    by (simp add: sweep_records_def example_table_def sweep_order_3 example_score_def
          example_workflow_def LineageWorkflow_def)
  show ?thesis
    using run_completed[OF d ne k sc] unfolding g r .
qed

section \<open>The highest priority\<close>

lemma max_by_priority_dominated:
  "\<forall>y \<in> set ys. snd y \<le> snd m \<Longrightarrow> max_by_priority m ys = m"
  by (induction ys) auto

lemma max_by_priority_decomp:
  assumes "\<forall>x \<in> set xs. snd x < snd m" and "snd b < snd m" and "\<forall>y \<in> set ys. snd y \<le> snd m"
  shows "max_by_priority b (xs @ m # ys) = m"
  using assms by (induction xs arbitrary: b) (auto simp: max_by_priority_dominated)

lemma max_by_priority_split:
  "\<exists>xs ys. b # cs = xs @ max_by_priority b cs # ys
      \<and> (\<forall>x \<in> set xs. snd x < snd (max_by_priority b cs))
      \<and> (\<forall>y \<in> set ys. snd y \<le> snd (max_by_priority b cs))"
proof (induction cs arbitrary: b)
  case Nil
  have "[b] = [] @ b # [] \<and> (\<forall>x \<in> set []. snd x < snd b) \<and> (\<forall>y \<in> set []. snd y \<le> snd b)"
    by simp
  then show ?case unfolding max_by_priority.simps by blast
next
  case (Cons c cs)
  show ?case
  proof (cases "snd b < snd c")
    case True
    let ?m = "max_by_priority c cs"
    have m: "max_by_priority b (c # cs) = ?m" using True by simp
    from Cons.IH[of c] obtain xs ys where
      d: "c # cs = xs @ ?m # ys"
      and lt: "\<forall>x \<in> set xs. snd x < snd ?m"
      and le: "\<forall>y \<in> set ys. snd y \<le> snd ?m" by blast
    have "c \<in> set (c # cs)" by simp
    then have "c \<in> set (xs @ ?m # ys)" using d by simp
    then have "c \<in> set xs \<or> c = ?m \<or> c \<in> set ys" by auto
    then have "snd c \<le> snd ?m" using lt le by force
    then have bm: "snd b < snd ?m" using True by simp
    have 1: "b # c # cs = (b # xs) @ ?m # ys" using d by simp
    have 2: "\<forall>x \<in> set (b # xs). snd x < snd ?m" using lt bm by simp
    show ?thesis unfolding m using 1 2 le by blast
  next
    case False
    let ?m = "max_by_priority b cs"
    have m: "max_by_priority b (c # cs) = ?m" using False by simp
    from Cons.IH[of b] obtain xs ys where
      d: "b # cs = xs @ ?m # ys"
      and lt: "\<forall>x \<in> set xs. snd x < snd ?m"
      and le: "\<forall>y \<in> set ys. snd y \<le> snd ?m" by blast
    show ?thesis
    proof (cases xs)
      case Nil
      from d Nil have both: "?m = b \<and> ys = cs" by auto
      then have bm: "?m = b" and cy: "ys = cs" by (rule conjunct1, rule conjunct2)
      have cb: "snd c \<le> snd ?m" unfolding bm using False by simp
      have 1: "b # c # cs = [] @ ?m # (c # ys)" unfolding bm cy by simp
      have 2: "\<forall>x \<in> set []. snd x < snd ?m" by simp
      have 3: "\<forall>y \<in> set (c # ys). snd y \<le> snd ?m" using le cb by simp
      show ?thesis unfolding m using 1 2 3 by blast
    next
      case (Cons x xs')
      from d Cons have both: "x = b \<and> cs = xs' @ ?m # ys" by auto
      then have x: "x = b" and cs: "cs = xs' @ ?m # ys" by (rule conjunct1, rule conjunct2)
      have "x \<in> set xs" using Cons by simp
      then have "snd x < snd ?m" using lt by blast
      then have bm: "snd b < snd ?m" unfolding x .
      have cm: "snd c < snd ?m" using False bm by simp
      have "b # c # cs = b # c # (xs' @ ?m # ys)" using cs by (rule arg_cong)
      then have 1: "b # c # cs = (b # c # xs') @ ?m # ys" by (simp only: append_Cons)
      have "\<forall>x \<in> set xs'. snd x < snd ?m" using lt Cons by simp
      then have 2: "\<forall>x \<in> set (b # c # xs'). snd x < snd ?m" using bm cm by simp
      show ?thesis unfolding m using 1 2 le by blast
    qed
  qed
qed

lemma get_highest_priority_decomp:
  assumes "candidates a g = xs @ (c, p) # ys"
    and "\<forall>x \<in> set xs. snd x < p" and "\<forall>y \<in> set ys. snd y \<le> p"
  shows "get_highest_priority a g = Inr (Some c)"
proof (cases xs)
  case Nil
  then show ?thesis using assms
    by (simp add: get_highest_priority_def max_by_priority_dominated)
next
  case (Cons x xs')
  have "max_by_priority x (xs' @ (c, p) # ys) = (c, p)"
    using assms Cons by (intro max_by_priority_decomp) auto
  then show ?thesis using assms Cons by (simp add: get_highest_priority_def)
qed

lemma candidates_completed_auto:
  assumes d: "distinct (map fst df)" and i: "i < length df"
    and nk: "fst (df ! i) \<notin> fst ` set (override_edges known)"
  shows "candidates (completed_graph f df known) (fst (df ! i)) =
      map (\<lambda>j. (fst (df ! j), totalScore (f (snd (df ! j)) (snd (df ! i))))) (rev [0..<i])"
proof -
  have "filter (\<lambda>e. fst e = fst (df ! i)) (override_edges known) = []"
    using nk by (force simp: filter_empty_conv)
  then show ?thesis
    using sweep_edges_of[OF d i, of f]
    by (simp add: candidates_def completed_graph_def comp_def)
qed

lemma rev_upt_split: "j < i \<Longrightarrow> rev [0..<i] = rev [Suc j..<i] @ j # rev [0..<j]"
proof -
  assume "j < i"
  then have k: "i = j + Suc (i - Suc j)" by simp
  have 1: "[0..<j + Suc (i - Suc j)] = [0..<j] @ [j..<j + Suc (i - Suc j)]"
    by (rule upt_add_eq_append) simp
  have 2: "[j..<j + Suc (i - Suc j)] = j # [Suc j..<j + Suc (i - Suc j)]"
    by (rule upt_conv_Cons) simp
  have e: "[0..<i] = [0..<j] @ j # [Suc j..<i]"
    using 1 2 k by metis
  have "rev [0..<i] = rev ([0..<j] @ j # [Suc j..<i])" by (rule arg_cong[OF e])
  also have "\<dots> = rev [Suc j..<i] @ j # rev [0..<j]"
    by (simp only: rev_append rev.simps append_assoc append_Cons append_Nil)
  finally show ?thesis .
qed

section \<open>The parent mapping\<close>























section \<open>Claims\<close>

text \<open>
  C1.  On a table with distinct labels and at least two rows the sweep of \<open>run\<close> (and
  of \<open>order_clusters\<close>) goes through the positions \<open>i = 1, 2, ...\<close> in ascending order
  and for each through the positions \<open>i - 1, ..., 0\<close> in descending order; it records
  one edge per visited pair, from the label at \<open>i\<close> to the label at \<open>j\<close>, with the
  pair's total score as priority, appends the pair's score record to the log, and records
  no edge from a label to itself.
\<close>

theorem sweep_visits_in_order:
  assumes "distinct (map fst df)" and "2 \<le> length df"
  shows "\<exists>a w a'.
     run (self\<lparr>scorer := \<lambda>x y. Inr (f x y)\<rparr>) df None = (Inr a, w)
     \<and> edges a =
         map (\<lambda>(i, j). (fst (df ! i), fst (df ! j), totalScore (f (snd (df ! j)) (snd (df ! i)))))
           (sweep_order (length df))
     \<and> score_records w =
         score_records self @ map (\<lambda>(i, j). f (snd (df ! j)) (snd (df ! i))) (sweep_order (length df))
     \<and> order_clusters scoring df dl ac dc None = Inr a'
     \<and> edges a' =
         map (\<lambda>(i, j). (fst (df ! i), fst (df ! j),
                 calculate_additive_score scoring (snd (df ! j)) (snd (df ! i)) ac
                 + calculate_derivative_score scoring (snd (df ! j)) (snd (df ! i)) dl dc
                 + calculate_area_score scoring (snd (df ! j)) (snd (df ! i))))
           (sweep_order (length df))
     \<and> (\<forall>e \<in> set (edges a) \<union> set (edges a'). fst e \<noteq> fst (snd e))
     \<and> (\<forall>i < length df. map (fst \<circ> snd) (filter (\<lambda>e. fst e = fst (df ! i)) (edges a))
            = map (\<lambda>j. fst (df ! j)) (rev [0..<i]))"
proof -
  have ne: "df \<noteq> []" using assms(2) by auto
  have k: "\<forall>(identity, parent) \<in> set (known_pairs None). parent \<noteq> ''genotype-0'' \<and> identity \<noteq> parent"
    by (simp add: known_pairs_def)
  let ?g = "\<lambda>x y. \<lparr>additive = calculate_additive_score scoring x y ac,
                  derivative = calculate_derivative_score scoring x y dl dc,
                  area = calculate_area_score scoring x y,
                  totalScore = calculate_additive_score scoring x y ac
                    + calculate_derivative_score scoring x y dl dc
                    + calculate_area_score scoring x y\<rparr>"
  have r: "run (self\<lparr>scorer := \<lambda>x y. Inr (f x y)\<rparr>) df None =
     (Inr (completed_graph f df []),
      self\<lparr>scorer := \<lambda>x y. Inr (f x y), genotype_nests := Some (completed_graph f df []),
           score_records := score_records self @ sweep_records f df\<rparr>)"
    using run_completed[OF assms(1) ne k, of "self\<lparr>scorer := \<lambda>x y. Inr (f x y)\<rparr>" f]
    by (simp add: known_pairs_def)
  have oc: "order_clusters scoring df dl ac dc None = Inr (completed_graph ?g df [])"
    using order_clusters_completed[OF assms(1) ne k order_score_total]
    by (simp add: known_pairs_def)
  have e1: "edges (completed_graph f df []) = sweep_edges f df"
    and e2: "edges (completed_graph ?g df []) = sweep_edges ?g df"
    by (simp_all add: completed_graph_def override_edges_def)
  have ns: "\<forall>e \<in> set (sweep_edges f df) \<union> set (sweep_edges ?g df). fst e \<noteq> fst (snd e)"
    using sweep_edges_no_self[OF assms(1)] by blast
  have per: "\<forall>i < length df. map (fst \<circ> snd) (filter (\<lambda>e. fst e = fst (df ! i)) (sweep_edges f df))
            = map (\<lambda>j. fst (df ! j)) (rev [0..<i])"
    using sweep_edges_of[OF assms(1)] by (simp add: comp_def)
  show ?thesis
    apply (rule exI[of _ "completed_graph f df []"])
    apply (rule exI[of _ "self\<lparr>scorer := \<lambda>x y. Inr (f x y), genotype_nests := Some (completed_graph f df []),
           score_records := score_records self @ sweep_records f df\<rparr>"])
    apply (rule exI[of _ "completed_graph ?g df []"])
    unfolding e1 e2
    using r oc ns per
    by (simp add: sweep_edges_def sweep_records_def)
qed

text \<open>The sweep on the example table.\<close>

theorem sweep_visits_in_order_witness:
  "distinct (map fst example_table) \<and> 2 \<le> length example_table \<and>
   (\<exists>a w a'.
      run example_workflow example_table None = (Inr a, w)
      \<and> edges a = [(''genotype-1'', ''genotype-0'', 1.2),
                    (''genotype-2'', ''genotype-1'', 1.5),
                    (''genotype-2'', ''genotype-0'', 1.7)]
      \<and> map totalScore (score_records w) = [1.2, 1.5, 1.7]
      \<and> order_clusters \<lparr>calculate_additive_score = \<lambda>x y c. c,
                          calculate_derivative_score = \<lambda>x y d c. d + c,
                          calculate_area_score = \<lambda>x y. snd (last x) - snd (last y)\<rparr>
            example_table 0.03 1 2 None = Inr a'
      \<and> edges a' = [(''genotype-1'', ''genotype-0'', 3.23),
                     (''genotype-2'', ''genotype-1'', 3.53),
                     (''genotype-2'', ''genotype-0'', 3.73)])"
proof -
  have h1: "distinct (map fst example_table)" by (simp add: example_table_def)
  have h2: "2 \<le> length example_table" by (simp add: example_table_def)
  have w: "example_workflow = example_workflow\<lparr>scorer := \<lambda>x y. Inr (example_score x y)\<rparr>"
    by (simp add: example_workflow_def LineageWorkflow_def)
  from sweep_visits_in_order[OF h1 h2, where self = example_workflow and f = example_score
        and scoring = "\<lparr>calculate_additive_score = \<lambda>x y c. c,
                          calculate_derivative_score = \<lambda>x y d c. d + c,
                          calculate_area_score = \<lambda>x y. snd (last x) - snd (last y)\<rparr>"
        and dl = "0.03" and ac = 1 and dc = 2]
  obtain a w' a' where
    "run (example_workflow\<lparr>scorer := \<lambda>x y. Inr (example_score x y)\<rparr>) example_table None = (Inr a, w')"
    "edges a = map (\<lambda>(i, j). (fst (example_table ! i), fst (example_table ! j),
         totalScore (example_score (snd (example_table ! j)) (snd (example_table ! i)))))
           (sweep_order (length example_table))"
    "score_records w' = score_records example_workflow @
         map (\<lambda>(i, j). example_score (snd (example_table ! j)) (snd (example_table ! i)))
           (sweep_order (length example_table))"
    "order_clusters \<lparr>calculate_additive_score = \<lambda>x y c. c,
                          calculate_derivative_score = \<lambda>x y d c. d + c,
                          calculate_area_score = \<lambda>x y. snd (last x) - snd (last y)\<rparr>
            example_table 0.03 1 2 None = Inr a'"
    "edges a' = map (\<lambda>(i, j). (fst (example_table ! i), fst (example_table ! j),
                 1 + (0.03 + 2) + (snd (last (snd (example_table ! j))) - snd (last (snd (example_table ! i))))))
           (sweep_order (length example_table))"
    by auto
  then have "run example_workflow example_table None = (Inr a, w')
      \<and> edges a = [(''genotype-1'', ''genotype-0'', 1.2),
                    (''genotype-2'', ''genotype-1'', 1.5),
                    (''genotype-2'', ''genotype-0'', 1.7)]
      \<and> map totalScore (score_records w') = [1.2, 1.5, 1.7]
      \<and> order_clusters \<lparr>calculate_additive_score = \<lambda>x y c. c,
                          calculate_derivative_score = \<lambda>x y d c. d + c,
                          calculate_area_score = \<lambda>x y. snd (last x) - snd (last y)\<rparr>
            example_table 0.03 1 2 None = Inr a'
      \<and> edges a' = [(''genotype-1'', ''genotype-0'', 3.23),
                     (''genotype-2'', ''genotype-1'', 3.53),
                     (''genotype-2'', ''genotype-0'', 3.73)]"
    using w
    by (simp add: example_table_def sweep_order_3 example_score_def
         example_workflow_def LineageWorkflow_def)
  then show ?thesis by (intro conjI[OF h1] conjI[OF h2] exI)
qed

text \<open>
  C7.  On an empty table \<open>run\<close> raises the IndexError of \<open>iloc[0]\<close> and leaves the
  workflow object as it was: no graph is created and nothing is recorded.  The same holds
  for \<open>order_clusters\<close>.
\<close>

theorem empty_table_fails:
  "run self [] known_ancestry = (Inl IndexError, self)
   \<and> order_clusters scoring [] dl ac dc known_ancestry = Inl IndexError"
  by (simp add: run_def order_clusters_def)





text \<open>
  C10.  \<open>run\<close> never clears the log: starting from a fresh workflow object, the log
  after a second run is the log of the first run followed by the records a fresh object
  would log on the second table; the result of the second run and the graph it leaves in
  \<open>genotype_nests\<close> are those of a fresh object, with nothing kept from the first run.
\<close>

theorem log_accumulates_across_runs:
  "score_records (snd (run (snd (run (LineageWorkflow Score dl fl pv dbg) df1 k1)) df2 k2)) =
     score_records (snd (run (LineageWorkflow Score dl fl pv dbg) df1 k1))
       @ score_records (snd (run (LineageWorkflow Score dl fl pv dbg) df2 k2))
   \<and> fst (run (snd (run (LineageWorkflow Score dl fl pv dbg) df1 k1)) df2 k2) =
       fst (run (LineageWorkflow Score dl fl pv dbg) df2 k2)
   \<and> (df2 \<noteq> [] \<longrightarrow>
        genotype_nests (snd (run (snd (run (LineageWorkflow Score dl fl pv dbg) df1 k1)) df2 k2)) =
          genotype_nests (snd (run (LineageWorkflow Score dl fl pv dbg) df2 k2)))"
proof -
  let ?w0 = "LineageWorkflow Score dl fl pv dbg"
  let ?w1 = "snd (run ?w0 df1 k1)"
  have s1: "scorer ?w1 = scorer ?w0" using run_frame[of ?w0 ?w0 df1 k1] by simp
  have e: "?w0\<lparr>score_records := []\<rparr> = ?w0" by (simp add: LineageWorkflow_def)
  show ?thesis using run_frame[OF s1, of df2 k2] by (simp add: e)
qed

text \<open>Two runs on the example table: six records, and the graph of one run.\<close>

theorem log_accumulates_across_runs_witness:
  "example_table \<noteq> []
   \<and> map totalScore (score_records
        (snd (run (snd (run example_workflow example_table None)) example_table None))) =
       [1.2, 1.5, 1.7, 1.2, 1.5, 1.7]
   \<and> genotype_nests (snd (run (snd (run example_workflow example_table None)) example_table None)) =
       Some \<lparr>root_label = ''genotype-0'',
           genotype_labels = [''genotype-0'', ''genotype-1'', ''genotype-2''],
           edges = [(''genotype-1'', ''genotype-0'', 1.2),
                    (''genotype-2'', ''genotype-1'', 1.5),
                    (''genotype-2'', ''genotype-0'', 1.7)]\<rparr>"
proof -
  have ne: "example_table \<noteq> []" by (simp add: example_table_def)
  show ?thesis
    using ne log_accumulates_across_runs[of "\<lambda>dl fl pv x y. Inr (example_score x y)" "0.03" "0.97" "0.05" False
        example_table None example_table None, folded example_workflow_def]
    by (simp add: example_run)
qed


text \<open>
  C6.  When a genotype has a recorded candidate, \<open>get_highest_priority\<close> answers with
  a candidate whose priority no other candidate exceeds and which every candidate
  recorded before it falls strictly short of: the earliest of the maximal ones.  In a run
  without declared ancestry on a table with distinct labels, the genotype at position
  \<open>i\<close> is therefore given the candidate at position \<open>j < i\<close> whenever no candidate scores
  higher and every candidate scanned before \<open>j\<close> (those between \<open>j\<close> and \<open>i\<close>) scores
  strictly lower; a candidate scanned later with the same total does not replace it.
\<close>

theorem highest_priority_earliest_maximum:
  "(candidates a g \<noteq> [] \<longrightarrow>
      (\<exists>c p before after.
          get_highest_priority a g = Inr (Some c)
          \<and> candidates a g = before @ (c, p) # after
          \<and> (\<forall>x \<in> set before. snd x < p)
          \<and> (\<forall>y \<in> set after. snd y \<le> p)))
   \<and> (distinct (map fst df) \<and> j < i \<and> i < length df
        \<and> (\<forall>j' < i. totalScore (f (snd (df ! j')) (snd (df ! i)))
                        \<le> totalScore (f (snd (df ! j)) (snd (df ! i))))
        \<and> (\<forall>j'. j < j' \<and> j' < i \<longrightarrow>
               totalScore (f (snd (df ! j')) (snd (df ! i)))
                 < totalScore (f (snd (df ! j)) (snd (df ! i)))) \<longrightarrow>
      (\<exists>graph w.
          run (self\<lparr>scorer := \<lambda>x y. Inr (f x y)\<rparr>) df None = (Inr graph, w)
          \<and> get_highest_priority graph (fst (df ! i)) = Inr (Some (fst (df ! j)))))"
proof (intro conjI impI)
  assume ne: "candidates a g \<noteq> []"
  then obtain b cs where bc: "candidates a g = b # cs" by (cases "candidates a g") auto
  from max_by_priority_split[of b cs] obtain xs ys where
    d: "b # cs = xs @ max_by_priority b cs # ys"
    and lt: "\<forall>x \<in> set xs. snd x < snd (max_by_priority b cs)"
    and le: "\<forall>y \<in> set ys. snd y \<le> snd (max_by_priority b cs)" by blast
  have g: "get_highest_priority a g = Inr (Some (fst (max_by_priority b cs)))"
    by (simp add: get_highest_priority_def bc)
  have "candidates a g = xs @ (fst (max_by_priority b cs), snd (max_by_priority b cs)) # ys"
    using d bc by simp
  with g lt le show "\<exists>c p before after.
          get_highest_priority a g = Inr (Some c)
          \<and> candidates a g = before @ (c, p) # after
          \<and> (\<forall>x \<in> set before. snd x < p)
          \<and> (\<forall>y \<in> set after. snd y \<le> p)" by blast
next
  let ?T = "\<lambda>j. totalScore (f (snd (df ! j)) (snd (df ! i)))"
  assume h: "distinct (map fst df) \<and> j < i \<and> i < length df
        \<and> (\<forall>j' < i. ?T j' \<le> ?T j) \<and> (\<forall>j'. j < j' \<and> j' < i \<longrightarrow> ?T j' < ?T j)"
  then have d: "distinct (map fst df)" and ji: "j < i" and i: "i < length df" by simp_all
  have ne: "df \<noteq> []" using i by auto
  have k: "\<forall>(identity, parent) \<in> set (known_pairs None). parent \<noteq> ''genotype-0'' \<and> identity \<noteq> parent"
    by (simp add: known_pairs_def)
  let ?G = "completed_graph f df []"
  have r: "run (self\<lparr>scorer := \<lambda>x y. Inr (f x y)\<rparr>) df None =
     (Inr ?G,
      self\<lparr>scorer := \<lambda>x y. Inr (f x y), genotype_nests := Some ?G,
           score_records := score_records self @ sweep_records f df\<rparr>)"
    using run_completed[OF d ne k, of "self\<lparr>scorer := \<lambda>x y. Inr (f x y)\<rparr>" f]
    by (simp add: known_pairs_def)
  have c: "candidates ?G (fst (df ! i)) =
      map (\<lambda>j. (fst (df ! j), ?T j)) (rev [Suc j..<i]) @ (fst (df ! j), ?T j)
        # map (\<lambda>j. (fst (df ! j), ?T j)) (rev [0..<j])"
    using candidates_completed_auto[OF d i, of "[]" f] rev_upt_split[OF ji]
    by (simp add: override_edges_def)
  have "get_highest_priority ?G (fst (df ! i)) = Inr (Some (fst (df ! j)))"
    using h by (intro get_highest_priority_decomp[OF c]) auto
  with r show "\<exists>graph w.
          run (self\<lparr>scorer := \<lambda>x y. Inr (f x y)\<rparr>) df None = (Inr graph, w)
          \<and> get_highest_priority graph (fst (df ! i)) = Inr (Some (fst (df ! j)))" by blast
qed

text \<open>
  A tie at priority 5 between the second and the fourth edge, and a run whose scorer
  gives every pair the same total.
\<close>

theorem highest_priority_earliest_maximum_witness:
  "candidates \<lparr>root_label = ''genotype-0'', genotype_labels = [''genotype-0'', ''genotype-1'', ''genotype-2'', ''genotype-3''],
        edges = [(''genotype-3'', ''genotype-0'', 2), (''genotype-3'', ''genotype-2'', 5),
                 (''genotype-2'', ''genotype-1'', 7), (''genotype-3'', ''genotype-1'', 5)]\<rparr> ''genotype-3'' \<noteq> []
   \<and> get_highest_priority \<lparr>root_label = ''genotype-0'', genotype_labels = [''genotype-0'', ''genotype-1'', ''genotype-2'', ''genotype-3''],
        edges = [(''genotype-3'', ''genotype-0'', 2), (''genotype-3'', ''genotype-2'', 5),
                 (''genotype-2'', ''genotype-1'', 7), (''genotype-3'', ''genotype-1'', 5)]\<rparr> ''genotype-3''
       = Inr (Some ''genotype-2'')
   \<and> distinct (map fst example_table) \<and> (1::nat) < 2 \<and> 2 < length example_table
   \<and> (\<exists>graph w.
          run (example_workflow\<lparr>scorer := \<lambda>x y. Inr \<lparr>additive = 0, derivative = 0, area = 0, totalScore = 0\<rparr>\<rparr>)
            example_table None = (Inr graph, w)
          \<and> get_highest_priority graph ''genotype-2'' = Inr (Some ''genotype-1''))"
proof -
  let ?G = "\<lparr>root_label = ''genotype-0'', genotype_labels = [''genotype-0'', ''genotype-1'', ''genotype-2'', ''genotype-3''],
        edges = [(''genotype-3'', ''genotype-0'', 2), (''genotype-3'', ''genotype-2'', 5),
                 (''genotype-2'', ''genotype-1'', 7), (''genotype-3'', ''genotype-1'', 5)]\<rparr>"
  let ?f = "\<lambda>x y. \<lparr>additive = 0, derivative = 0, area = 0, totalScore = 0::real\<rparr>"
  note inst = highest_priority_earliest_maximum[where a = "?G" and g = "''genotype-3''"
      and df = example_table and i = 2 and j = 1 and f = "?f" and self = example_workflow]
  have c: "candidates ?G ''genotype-3'' = [(''genotype-0'', 2), (''genotype-2'', 5), (''genotype-1'', 5)]"
    by (simp add: candidates_def)
  have ne: "candidates ?G ''genotype-3'' \<noteq> []" unfolding c by simp
  have g: "get_highest_priority ?G ''genotype-3'' = Inr (Some ''genotype-2'')"
    by (simp add: get_highest_priority_def c)
  have d: "distinct (map fst example_table)" and l: "2 < length example_table"
    by (simp_all add: example_table_def)
  have n2: "fst (example_table ! 2) = ''genotype-2''" and n1: "fst (example_table ! 1) = ''genotype-1''"
    by (simp_all add: example_table_def)
  from inst have "\<exists>graph w.
          run (example_workflow\<lparr>scorer := \<lambda>x y. Inr (?f x y)\<rparr>) example_table None = (Inr graph, w)
          \<and> get_highest_priority graph (fst (example_table ! 2)) = Inr (Some (fst (example_table ! 1)))"
    using d l by simp
  then have "\<exists>graph w.
          run (example_workflow\<lparr>scorer := \<lambda>x y. Inr (?f x y)\<rparr>) example_table None = (Inr graph, w)
          \<and> get_highest_priority graph ''genotype-2'' = Inr (Some ''genotype-1'')"
    unfolding n2 n1 .
  with ne g d l show ?thesis by simp
qed


text \<open>
  C8.  When the requested method is not one of the accepted methods, \<open>workflow\<close> ends
  with the ValueError that \<open>parse_workflow_options\<close> raises, whose message starts
  with the rejected method.  Only the first line has been printed and the outside world
  is untouched: no table was imported or sorted, the nesting stage did not start and no
  pair was scored.
\<close>

theorem unknown_method_rejected:
  assumes "method_option options \<notin> set ACCEPTED_METHODS"
  shows "\<exists>options'.
     workflow stages lib input_filename output_folder options (w, out) =
       (Inl (ValueError (method_option options
          @ '' is not a valid option for the --method option. Expected one of ['matlab', 'hierarchy']'')),
        options', w, out @ [''parsing options...''])
     \<and> parse_workflow_options lib options =
       (Inl (ValueError (method_option options
          @ '' is not a valid option for the --method option. Expected one of ['matlab', 'hierarchy']'')),
        options')"
proof -
  let ?po = "if fixed_breakpoint options = None
             then options\<lparr>fixed_breakpoint := Some (1 - detection_breakpoint options)\<rparr>
             else options"
  have m: "method_option ?po = method_option options" by simp
  have p: "parse_workflow_options lib options =
       (Inl (ValueError (method_option options
          @ '' is not a valid option for the --method option. Expected one of ['matlab', 'hierarchy']'')),
        ?po)"
    unfolding parse_workflow_options_def Let_def m using assms by simp
  show ?thesis
    by (rule exI[of _ ?po]) (simp add: workflow_def p)
qed

text \<open>The method \<open>twostep\<close> is rejected.\<close>

theorem unknown_method_rejected_witness:
  "workflow example_stages example_library ''in.xlsx'' ''out''
      \<lparr>detection_breakpoint = 0.03, fixed_breakpoint = None, significant_breakpoint = 0.15,
       similarity_breakpoint = 0.05, difference_breakpoint = 0.1, frequencies = [1, 0.9],
       mode = False, method_option = ''twostep'', is_genotype = False, sheetname = ''Sheet1'',
       use_filter = True, use_strict_filter = False, annotate_all = False, save_pvalue = True\<rparr>
      (0, []) =
     (Inl (ValueError ''twostep is not a valid option for the --method option. Expected one of ['matlab', 'hierarchy']''),
      \<lparr>detection_breakpoint = 0.03, fixed_breakpoint = Some 0.97, significant_breakpoint = 0.15,
       similarity_breakpoint = 0.05, difference_breakpoint = 0.1, frequencies = [1, 0.9],
       mode = False, method_option = ''twostep'', is_genotype = False, sheetname = ''Sheet1'',
       use_filter = True, use_strict_filter = False, annotate_all = False, save_pvalue = True\<rparr>,
      0, [''parsing options...''])"
proof -
  let ?o = "\<lparr>detection_breakpoint = 0.03, fixed_breakpoint = None, significant_breakpoint = 0.15,
       similarity_breakpoint = 0.05, difference_breakpoint = 0.1, frequencies = [1, 0.9],
       mode = False, method_option = ''twostep'', is_genotype = False, sheetname = ''Sheet1'',
       use_filter = True, use_strict_filter = False, annotate_all = False, save_pvalue = True\<rparr>"
  have h: "method_option ?o \<notin> set ACCEPTED_METHODS" by (simp add: ACCEPTED_METHODS_def)
  from unknown_method_rejected[OF h, of example_stages example_library "''in.xlsx''" "''out''" 0 "[]"]
  obtain o' where
    1: "workflow example_stages example_library ''in.xlsx'' ''out'' ?o (0, []) =
       (Inl (ValueError (method_option ?o
          @ '' is not a valid option for the --method option. Expected one of ['matlab', 'hierarchy']'')),
        o', 0, [] @ [''parsing options...''])"
    and 2: "parse_workflow_options example_library ?o =
       (Inl (ValueError (method_option ?o
          @ '' is not a valid option for the --method option. Expected one of ['matlab', 'hierarchy']'')),
        o')" by blast
  have "snd (parse_workflow_options example_library ?o) =
     \<lparr>detection_breakpoint = 0.03, fixed_breakpoint = Some 0.97, significant_breakpoint = 0.15,
       similarity_breakpoint = 0.05, difference_breakpoint = 0.1, frequencies = [1, 0.9],
       mode = False, method_option = ''twostep'', is_genotype = False, sheetname = ''Sheet1'',
       use_filter = True, use_strict_filter = False, annotate_all = False, save_pvalue = True\<rparr>"
    by (simp add: parse_workflow_options_def Let_def ACCEPTED_METHODS_def)
  then have o': "o' = \<lparr>detection_breakpoint = 0.03, fixed_breakpoint = Some 0.97, significant_breakpoint = 0.15,
       similarity_breakpoint = 0.05, difference_breakpoint = 0.1, frequencies = [1, 0.9],
       mode = False, method_option = ''twostep'', is_genotype = False, sheetname = ''Sheet1'',
       use_filter = True, use_strict_filter = False, annotate_all = False, save_pvalue = True\<rparr>"
    unfolding 2 by simp
  show ?thesis using 1 unfolding o' by simp
qed









end
